theory Spec2Isabelle
  imports
    Main
    "HOL-Library.Word"
    "HOL-Library.Signed_Division"
    "HOL-Library.Monad_Syntax"
    "HOL-Library.Sublist"
begin

unbundle bit_operations_syntax

section \<open>Machine types and the big-endian byte order\<close>

text \<open>
  Go's fixed-width integers are words of that width; a signed type is read with
  \<open>sint\<close>, an unsigned one with \<open>uint\<close>. A conversion between integer types keeps
  the low bits and extends by the sign of a signed source (\<open>scast\<close>) or by zeros
  for an unsigned source (\<open>ucast\<close>).
\<close>

type_synonym byte = "8 word"
type_synonym int16 = "16 word"
type_synonym int32 = "32 word"
type_synonym int64 = "64 word"
type_synonym uint32 = "32 word"
type_synonym uint64 = "64 word"

text \<open>\<^verbatim>\<open>make([]byte, n)\<close>: a fresh slice of \<open>n\<close> zero bytes.\<close>

definition make_bytes :: "nat \<Rightarrow> byte list" where
  "make_bytes n = replicate n 0"

text \<open>
  \<^verbatim>\<open>binary.BigEndian\<close> of the standard library. \<^verbatim>\<open>PutUint32(b, v)\<close> stores
  \<^verbatim>\<open>byte(v >> 24)\<close>, \<^verbatim>\<open>byte(v >> 16)\<close>, \<^verbatim>\<open>byte(v >> 8)\<close>, \<^verbatim>\<open>byte(v)\<close> into
  \<^verbatim>\<open>b[0]\<close> .. \<^verbatim>\<open>b[3]\<close> and leaves the rest of \<^verbatim>\<open>b\<close> alone; \<^verbatim>\<open>PutUint64\<close> does the
  same with eight bytes. Every buffer handed to them in this package comes from
  \<^verbatim>\<open>make\<close> with at least that many bytes, so their bounds check never fires.
\<close>

definition PutUint32 :: "byte list \<Rightarrow> uint32 \<Rightarrow> byte list" where
  "PutUint32 b v =
     b[0 := ucast (drop_bit 24 v), 1 := ucast (drop_bit 16 v),
       2 := ucast (drop_bit 8 v), 3 := ucast v]"

definition PutUint64 :: "byte list \<Rightarrow> uint64 \<Rightarrow> byte list" where
  "PutUint64 b v =
     b[0 := ucast (drop_bit 56 v), 1 := ucast (drop_bit 48 v),
       2 := ucast (drop_bit 40 v), 3 := ucast (drop_bit 32 v),
       4 := ucast (drop_bit 24 v), 5 := ucast (drop_bit 16 v),
       6 := ucast (drop_bit 8 v), 7 := ucast v]"

text \<open>
  \<^verbatim>\<open>Uint32(b)\<close> reads \<^verbatim>\<open>b[0]\<close> .. \<^verbatim>\<open>b[3]\<close> back, most significant byte first;
  \<^verbatim>\<open>Uint64(b)\<close> reads eight bytes.
\<close>

definition Uint32 :: "byte list \<Rightarrow> uint32" where
  "Uint32 b =
     ucast (b ! 3) OR push_bit 8 (ucast (b ! 2)) OR
     push_bit 16 (ucast (b ! 1)) OR push_bit 24 (ucast (b ! 0))"

definition Uint64 :: "byte list \<Rightarrow> uint64" where
  "Uint64 b =
     ucast (b ! 7) OR push_bit 8 (ucast (b ! 6)) OR
     push_bit 16 (ucast (b ! 5)) OR push_bit 24 (ucast (b ! 4)) OR
     push_bit 32 (ucast (b ! 3)) OR push_bit 40 (ucast (b ! 2)) OR
     push_bit 48 (ucast (b ! 1)) OR push_bit 56 (ucast (b ! 0))"

text \<open>The number a byte sequence denotes when read most significant byte first.\<close>

definition be_nat :: "byte list \<Rightarrow> nat" where
  "be_nat bs = foldl (\<lambda>acc b. acc * 256 + unat b) 0 bs"

text \<open>\<^verbatim>\<open>[]byte(s)\<close>: the bytes of a string.\<close>

definition bytes_of_string :: "string \<Rightarrow> byte list" where
  "bytes_of_string s = map of_char s"


section \<open>The data model\<close>

text \<open>
  \<^verbatim>\<open>zipkincore.Endpoint\<close>, \<^verbatim>\<open>zipkincore.AnnotationType\<close> and the Thrift structures
  that \<^verbatim>\<open>Encode\<close> fills are generated code; their fields are taken from the way
  \<^verbatim>\<open>span.go\<close> uses them.
\<close>

record Endpoint =
  Ipv4 :: int32
  Port :: int16
  ServiceName :: string

datatype AnnotationType =
  AnnotationType_BOOL
  | AnnotationType_BYTES
  | AnnotationType_I16
  | AnnotationType_I32
  | AnnotationType_I64
  | AnnotationType_DOUBLE
  | AnnotationType_STRING

text \<open>
  An \<^verbatim>\<open>*zipkincore.Endpoint\<close> is an address in the store of endpoints, or \<open>None\<close>
  for the nil pointer. A \<^verbatim>\<open>time.Time\<close> is kept as its \<^verbatim>\<open>UnixNano()\<close>.
\<close>

type_synonym endpoint_ptr = "nat option"

record annotation =
  timestamp :: int64
  "value" :: string
  a_host :: endpoint_ptr

record binaryAnnotation =
  key :: string
  b_value :: "byte list"
  annotationType :: AnnotationType
  b_host :: endpoint_ptr

record Span =
  host :: endpoint_ptr
  methodName :: string
  traceID :: int64
  spanID :: int64
  parentSpanID :: int64
  annotations :: "annotation list"
  binaryAnnotations :: "binaryAnnotation list"
  debug :: bool
  sampled :: bool
  runSampler :: bool

text \<open>
  The dynamic type of the \<^verbatim>\<open>interface{}\<close> argument of \<^verbatim>\<open>AnnotateBinary\<close>, one
  constructor for each case of its type switch. The platform's \<^verbatim>\<open>int\<close> and \<^verbatim>\<open>uint\<close>
  are 32 or 64 bits wide; they are carried here in 64 bits (sign-extended resp.
  zero-extended on a 32-bit platform), which \<^verbatim>\<open>uint32(v)\<close> truncates to the same
  32 bits either way. A float is carried as its IEEE-754 bit pattern. A value of
  any other type is carried as its rendering by \<^verbatim>\<open>fmt.Sprintf("%+v", value)\<close>.
\<close>

datatype Value =
  V_bool bool
  | V_bytes "byte list"
  | V_byte "8 word"
  | V_int8 "8 word"
  | V_int16 "16 word"
  | V_uint16 "16 word"
  | V_int32 "32 word"
  | V_uint32 "32 word"
  | V_int64 "64 word"
  | V_int "64 word"
  | V_uint "64 word"
  | V_uint64 "64 word"
  | V_float32 "32 word"
  | V_float64 "64 word"
  | V_string string
  | V_other string

text \<open>
  What the package takes from outside this file: the standard library
  (\<^verbatim>\<open>net.SplitHostPort\<close>, \<^verbatim>\<open>strconv.ParseInt(port, 10, 16)\<close>, \<^verbatim>\<open>net.LookupIP\<close>, the
  clock behind \<^verbatim>\<open>time.Now\<close>, the widening of a \<^verbatim>\<open>float32\<close> to a \<^verbatim>\<open>float64\<close>), the
  generator \<^verbatim>\<open>newID\<close>, and the constants \<^verbatim>\<open>ClientSend\<close>, \<^verbatim>\<open>ClientReceive\<close> and
  \<^verbatim>\<open>ServerAddress\<close>. A failing library call is \<open>None\<close>. The clock and the
  generator are read by the number of the call.
\<close>

record env =
  SplitHostPort :: "string \<Rightarrow> (string \<times> string) option"
  ParseInt :: "string \<Rightarrow> int option"
  LookupIP :: "string \<Rightarrow> byte list list option"
  Now :: "nat \<Rightarrow> int64"
  float64_of_float32 :: "32 word \<Rightarrow> 64 word"
  newID :: "nat \<Rightarrow> int64"
  ClientSend :: string
  ClientReceive :: string
  ServerAddress :: string

text \<open>
  The mutable state. \<^verbatim>\<open>*Span\<close> and \<^verbatim>\<open>*zipkincore.Endpoint\<close> are pointers, and
  a span is shared between the caller of \<^verbatim>\<open>NewChildSpan\<close> and the closure it
  returns, so both kinds of object live in a store; a pointer is an index into
  it and an index outside the store points to no object, as nil does. \<open>vars\<close>
  holds the variable \<^verbatim>\<open>childSpan\<close> captured by each closure. \<open>collected\<close> lists
  the calls \<^verbatim>\<open>collector.Collect(span)\<close> made so far, by collector and span
  pointer; \<open>clock\<close> and \<open>ids\<close> count the calls of \<^verbatim>\<open>time.Now\<close> and \<^verbatim>\<open>newID\<close>.
\<close>

text \<open>
  A \<^verbatim>\<open>Collector\<close> is an interface implemented outside this file. A collector is
  known here by a number only, and all that is kept of a call of its \<^verbatim>\<open>Collect\<close>
  is that it was made.
\<close>

type_synonym Collector = nat

record world =
  endpoints :: "Endpoint list"
  spans :: "Span list"
  vars :: "nat option list"
  collected :: "(Collector \<times> nat) list"
  clock :: nat
  ids :: nat

definition deref :: "world \<Rightarrow> nat \<Rightarrow> Span option" where
  "deref w p = (if p < length (spans w) then Some (spans w ! p) else None)"

definition store :: "nat \<Rightarrow> Span \<Rightarrow> world \<Rightarrow> world" where
  "store p sp w = w\<lparr>spans := (spans w)[p := sp]\<rparr>"


section \<open>makeEndpoint\<close>

text \<open>
  \<^verbatim>\<open>IP.To4\<close> of the standard library: a 4-byte address is returned as it is, a
  16-byte address with the IPv4-in-IPv6 prefix gives its last four bytes, and
  anything else gives nil.
\<close>

definition To4 :: "byte list \<Rightarrow> byte list option" where
  "To4 ip =
     (if length ip = 4 then Some ip
      else if length ip = 16 \<and> take 10 ip = replicate 10 0 \<and> ip ! 10 = 255 \<and> ip ! 11 = 255
      then Some (drop 12 ip)
      else None)"

text \<open>The loop over \<^verbatim>\<open>addrs\<close>: the first address for which \<^verbatim>\<open>To4\<close> is not nil.\<close>

fun first_ipv4 :: "byte list list \<Rightarrow> byte list option" where
  "first_ipv4 [] = None"
| "first_ipv4 (a # addrs) =
     (case To4 a of Some addr \<Rightarrow> Some addr | None \<Rightarrow> first_ipv4 addrs)"

text \<open>
  \<^verbatim>\<open>makeEndpoint\<close> returns nil at the first failing step and otherwise a pointer to
  a new Endpoint.
\<close>

definition makeEndpoint :: "env \<Rightarrow> string \<Rightarrow> string \<Rightarrow> world \<Rightarrow> endpoint_ptr \<times> world" where
  "makeEndpoint E hostport serviceName w =
     (case SplitHostPort E hostport of
        None \<Rightarrow> (None, w)
      | Some (h, port) \<Rightarrow>
          (case ParseInt E port of
             None \<Rightarrow> (None, w)
           | Some portInt \<Rightarrow>
               (case LookupIP E h of
                  None \<Rightarrow> (None, w)
                | Some addrs \<Rightarrow>
                    (case first_ipv4 addrs of
                       None \<Rightarrow> (None, w)
                     | Some addr \<Rightarrow>
                         (Some (length (endpoints w)),
                          w\<lparr>endpoints := endpoints w @
                             [\<lparr>Ipv4 = Uint32 addr, Port = word_of_int portInt,
                               ServiceName = serviceName\<rparr>]\<rparr>)))))"


section \<open>Span\<close>

text \<open>\<^verbatim>\<open>NewSpan\<close> allocates the span and returns the pointer to it.\<close>

definition NewSpan ::
  "env \<Rightarrow> string \<Rightarrow> string \<Rightarrow> string \<Rightarrow> int64 \<Rightarrow> int64 \<Rightarrow> int64 \<Rightarrow> world \<Rightarrow> nat \<times> world" where
  "NewSpan E hostport serviceName mName tID sID pID w =
     (case makeEndpoint E hostport serviceName w of
        (e, w1) \<Rightarrow>
          (length (spans w1),
           w1\<lparr>spans := spans w1 @
             [\<lparr>host = e, methodName = mName, traceID = tID, spanID = sID,
               parentSpanID = pID, annotations = [], binaryAnnotations = [],
               debug = False, sampled = False, runSampler = True\<rparr>]\<rparr>))"

text \<open>
  A method on a \<^verbatim>\<open>*Span\<close> reads and writes the span behind the pointer; on a
  pointer to no span the access panics, which is the result \<open>None\<close>.
\<close>

definition Sample :: "nat \<Rightarrow> world \<Rightarrow> world option" where
  "Sample s w = do { sp \<leftarrow> deref w s; Some (store s (sp\<lparr>sampled := True\<rparr>) w) }"

definition SetDebug :: "nat \<Rightarrow> world \<Rightarrow> world option" where
  "SetDebug s w = do { sp \<leftarrow> deref w s; Some (store s (sp\<lparr>debug := True\<rparr>) w) }"

definition IsSampled :: "nat \<Rightarrow> world \<Rightarrow> bool option" where
  "IsSampled s w = do { sp \<leftarrow> deref w s; Some (sampled sp) }"

definition Annotate :: "env \<Rightarrow> nat \<Rightarrow> string \<Rightarrow> world \<Rightarrow> world option" where
  "Annotate E s v w =
     do { sp \<leftarrow> deref w s;
          Some (store s
            (sp\<lparr>annotations := annotations sp @
               [\<lparr>timestamp = Now E (clock w), value = v, a_host = host sp\<rparr>]\<rparr>)
            (w\<lparr>clock := Suc (clock w)\<rparr>)) }"

text \<open>The type switch of \<^verbatim>\<open>AnnotateBinary\<close>: the wire type \<^verbatim>\<open>a\<close> and the bytes \<^verbatim>\<open>b\<close>.\<close>

fun encode_value :: "env \<Rightarrow> Value \<Rightarrow> AnnotationType \<times> byte list" where
  "encode_value E (V_bool v) = (AnnotationType_BOOL, if v then [1] else [0])"
| "encode_value E (V_bytes v) = (AnnotationType_BYTES, v)"
| "encode_value E (V_byte v) = (AnnotationType_I32, PutUint32 (make_bytes 4) (ucast v))"
| "encode_value E (V_int8 v) = (AnnotationType_I32, PutUint32 (make_bytes 4) (scast v))"
| "encode_value E (V_int16 v) = (AnnotationType_I32, PutUint32 (make_bytes 4) (scast v))"
| "encode_value E (V_uint16 v) = (AnnotationType_I32, PutUint32 (make_bytes 4) (ucast v))"
| "encode_value E (V_int32 v) = (AnnotationType_I32, PutUint32 (make_bytes 4) v)"
| "encode_value E (V_uint32 v) = (AnnotationType_I32, PutUint32 (make_bytes 4) v)"
| "encode_value E (V_int64 v) = (AnnotationType_I64, PutUint64 (make_bytes 8) v)"
| "encode_value E (V_int v) = (AnnotationType_I32, PutUint32 (make_bytes 8) (ucast v))"
| "encode_value E (V_uint v) = (AnnotationType_I32, PutUint32 (make_bytes 8) (ucast v))"
| "encode_value E (V_uint64 v) = (AnnotationType_I64, PutUint64 (make_bytes 8) v)"
| "encode_value E (V_float32 v) =
     (AnnotationType_DOUBLE, PutUint64 (make_bytes 8) (float64_of_float32 E v))"
| "encode_value E (V_float64 v) = (AnnotationType_DOUBLE, PutUint64 (make_bytes 8) v)"
| "encode_value E (V_string v) = (AnnotationType_STRING, bytes_of_string v)"
| "encode_value E (V_other rendering) = (AnnotationType_STRING, bytes_of_string rendering)"

definition AnnotateBinary :: "env \<Rightarrow> nat \<Rightarrow> string \<Rightarrow> Value \<Rightarrow> world \<Rightarrow> world option" where
  "AnnotateBinary E s k v w =
     (case encode_value E v of
        (a, b) \<Rightarrow>
          do { sp \<leftarrow> deref w s;
               Some (store s
                 (sp\<lparr>binaryAnnotations := binaryAnnotations sp @
                    [\<lparr>key = k, b_value = b, annotationType = a, b_host = host sp\<rparr>]\<rparr>) w) })"

definition AnnotateString :: "nat \<Rightarrow> string \<Rightarrow> string \<Rightarrow> world \<Rightarrow> world option" where
  "AnnotateString s k v w =
     do { sp \<leftarrow> deref w s;
          Some (store s
            (sp\<lparr>binaryAnnotations := binaryAnnotations sp @
               [\<lparr>key = k, b_value = bytes_of_string v,
                 annotationType = AnnotationType_STRING, b_host = host sp\<rparr>]\<rparr>) w) }"


section \<open>Span options\<close>

text \<open>
  A \<^verbatim>\<open>SpanOption\<close> is a function on a \<^verbatim>\<open>*Span\<close>. The package builds them with
  \<^verbatim>\<open>ServerAddr\<close>, \<^verbatim>\<open>Host\<close> and \<^verbatim>\<open>Debug\<close>; an option is the constructor with its
  arguments, and \<open>apply_option\<close> is the call of the function it returns.
\<close>

datatype SpanOption =
  ServerAddr string string
  | Host string string
  | Debug bool

fun apply_option :: "env \<Rightarrow> SpanOption \<Rightarrow> nat \<Rightarrow> world \<Rightarrow> world option" where
  "apply_option E (ServerAddr hostport serviceName) s w =
     (case makeEndpoint E hostport serviceName w of
        (None, w1) \<Rightarrow> Some w1
      | (Some e, w1) \<Rightarrow>
          do { sp \<leftarrow> deref w1 s;
               let host0 = host sp;
               let w2 = store s (sp\<lparr>host := Some e\<rparr>) w1;
               w3 \<leftarrow> AnnotateBinary E s (ServerAddress E) (V_bool True) w2;
               sp3 \<leftarrow> deref w3 s;
               Some (store s (sp3\<lparr>host := host0\<rparr>) w3) })"
| "apply_option E (Host hostport serviceName) s w =
     (case makeEndpoint E hostport serviceName w of
        (None, w1) \<Rightarrow> Some w1
      | (Some e, w1) \<Rightarrow>
          do { sp \<leftarrow> deref w1 s;
               Some (store s (sp\<lparr>host := Some e\<rparr>) w1) })"
| "apply_option E (Debug d) s w =
     do { sp \<leftarrow> deref w s; Some (store s (sp\<lparr>debug := d\<rparr>) w) }"

text \<open>\<^verbatim>\<open>for _, option := range options { option(childSpan) }\<close>\<close>

fun apply_options :: "env \<Rightarrow> SpanOption list \<Rightarrow> nat \<Rightarrow> world \<Rightarrow> world option" where
  "apply_options E [] s w = Some w"
| "apply_options E (opt # opts) s w =
     do { w1 \<leftarrow> apply_option E opt s w; apply_options E opts s w1 }"


section \<open>NewChildSpan\<close>

text \<open>
  A \<^verbatim>\<open>CollectFunc\<close> returned by \<^verbatim>\<open>NewChildSpan\<close> is either the empty function or
  the closure over the collector and the variable \<^verbatim>\<open>childSpan\<close>, named by its
  place in \<open>vars\<close>.
\<close>

datatype CollectFunc =
  collect_nothing
  | collect_child Collector nat

text \<open>
  \<^verbatim>\<open>FromContext\<close> belongs to another file of the package. A context is what the
  lookup gives on it: the span pointer it carries, if any.
\<close>

type_synonym Context = "nat option"

definition FromContext :: "Context \<Rightarrow> nat option" where
  "FromContext ctx = ctx"

text \<open>\<^verbatim>\<open>collector.Collect(span)\<close>: the call is recorded; its error result is dropped.\<close>

definition Collect :: "Collector \<Rightarrow> nat \<Rightarrow> world \<Rightarrow> world" where
  "Collect collector s w = w\<lparr>collected := collected w @ [(collector, s)]\<rparr>"

definition NewChildSpan ::
  "env \<Rightarrow> Context \<Rightarrow> Collector \<Rightarrow> string \<Rightarrow> SpanOption list \<Rightarrow> world \<Rightarrow>
     ((nat option \<times> CollectFunc) \<times> world) option" where
  "NewChildSpan E ctx collector mName options w =
     (case FromContext ctx of
        None \<Rightarrow> Some ((None, collect_nothing), w)
      | Some p \<Rightarrow>
          do { span \<leftarrow> deref w p;
               let childSpan = length (spans w);
               let var = length (vars w);
               let w1 = w\<lparr>spans := spans w @
                           [\<lparr>host = host span, methodName = mName, traceID = traceID span,
                             spanID = newID E (ids w), parentSpanID = spanID span,
                             annotations = [], binaryAnnotations = [],
                             debug = debug span, sampled = sampled span,
                             runSampler = runSampler span\<rparr>],
                         vars := vars w @ [Some childSpan],
                         ids := Suc (ids w)\<rparr>;
               w2 \<leftarrow> Annotate E childSpan (ClientSend E) w1;
               w3 \<leftarrow> apply_options E options childSpan w2;
               Some ((Some childSpan, collect_child collector var), w3) })"

text \<open>
  Calling a \<^verbatim>\<open>CollectFunc\<close>. The closure tests its variable, annotates and
  collects the span it holds and sets the variable to nil.
\<close>

fun call_CollectFunc :: "env \<Rightarrow> CollectFunc \<Rightarrow> world \<Rightarrow> world option" where
  "call_CollectFunc E collect_nothing w = Some w"
| "call_CollectFunc E (collect_child collector var) w =
     (if var < length (vars w) then
        (case vars w ! var of
           None \<Rightarrow> Some w
         | Some childSpan \<Rightarrow>
             do { w1 \<leftarrow> Annotate E childSpan (ClientReceive E) w;
                  let w2 = Collect collector childSpan w1;
                  Some (w2\<lparr>vars := (vars w2)[var := None]\<rparr>) })
      else None)"

text \<open>The function called \<open>n\<close> times in a row.\<close>

fun call_times :: "nat \<Rightarrow> env \<Rightarrow> CollectFunc \<Rightarrow> world \<Rightarrow> world option" where
  "call_times 0 E f w = Some w"
| "call_times (Suc n) E f w = do { w1 \<leftarrow> call_CollectFunc E f w; call_times n E f w1 }"


section \<open>Encode\<close>

text \<open>
  The Thrift structures. A field that is a pointer or a slice can be nil, which
  is \<open>None\<close>; \<^verbatim>\<open>make\<close> gives a slice that is not nil, whatever its length. The
  fields of the two kinds of annotation carry the prefixes \<open>A_\<close> and \<open>B_\<close>.
\<close>

record zipkincore_Annotation =
  A_Timestamp :: int64
  A_Value :: string
  A_Host :: endpoint_ptr

record zipkincore_BinaryAnnotation =
  B_Key :: string
  B_Value :: "byte list"
  B_AnnotationType :: AnnotationType
  B_Host :: endpoint_ptr

record zipkincore_Span =
  TraceId :: int64
  Name :: string
  Id :: int64
  ParentId :: "int64 option"
  Annotations :: "zipkincore_Annotation list option"
  BinaryAnnotations :: "zipkincore_BinaryAnnotation list option"
  Debug_flag :: bool

text \<open>
  \<^verbatim>\<open>a.timestamp.UnixNano() / 1e3\<close> is a division of \<^verbatim>\<open>int64\<close>, which truncates
  towards zero.
\<close>

definition micros :: "int64 \<Rightarrow> int64" where
  "micros t = word_of_int (sint t sdiv 1000)"

text \<open>The two loops that fill the slices, entry by entry in the order of the span.\<close>

fun encode_annotations :: "annotation list \<Rightarrow> zipkincore_Annotation list" where
  "encode_annotations [] = []"
| "encode_annotations (a # as) =
     \<lparr>A_Timestamp = micros (timestamp a), A_Value = value a, A_Host = a_host a\<rparr>
       # encode_annotations as"

fun encode_binaryAnnotations :: "binaryAnnotation list \<Rightarrow> zipkincore_BinaryAnnotation list" where
  "encode_binaryAnnotations [] = []"
| "encode_binaryAnnotations (a # as) =
     \<lparr>B_Key = key a, B_Value = b_value a, B_AnnotationType = annotationType a,
       B_Host = b_host a\<rparr>
       # encode_binaryAnnotations as"

text \<open>
  \<^verbatim>\<open>Encode\<close> reads the span behind the pointer and returns the new Thrift span
  together with the state it leaves.
\<close>

definition Encode :: "nat \<Rightarrow> world \<Rightarrow> (zipkincore_Span \<times> world) option" where
  "Encode s w =
     do { sp \<leftarrow> deref w s;
          let zs = \<lparr>TraceId = traceID sp, Name = methodName sp, Id = spanID sp,
                    ParentId = None, Annotations = None, BinaryAnnotations = None,
                    Debug_flag = debug sp\<rparr>;
          let zs = (if parentSpanID sp \<noteq> 0 then zs\<lparr>ParentId := Some (parentSpanID sp)\<rparr> else zs);
          let zs = zs\<lparr>Annotations := Some (encode_annotations (annotations sp))\<rparr>;
          let zs = zs\<lparr>BinaryAnnotations := Some (encode_binaryAnnotations (binaryAnnotations sp))\<rparr>;
          Some (zs, w) }"


section \<open>Sequences of calls\<close>

text \<open>
  What a holder of span pointers can do with them: call a method, or apply an
  option. A program is a list of such calls, each with the pointer it is made
  on; it stops at the first call that panics.
\<close>

datatype SpanCall =
  Call_Sample
  | Call_SetDebug
  | Call_Annotate string
  | Call_AnnotateBinary string Value
  | Call_AnnotateString string string
  | Call_option SpanOption

fun call :: "env \<Rightarrow> nat \<Rightarrow> SpanCall \<Rightarrow> world \<Rightarrow> world option" where
  "call E s Call_Sample w = Sample s w"
| "call E s Call_SetDebug w = SetDebug s w"
| "call E s (Call_Annotate v) w = Annotate E s v w"
| "call E s (Call_AnnotateBinary k v) w = AnnotateBinary E s k v w"
| "call E s (Call_AnnotateString k v) w = AnnotateString s k v w"
| "call E s (Call_option opt) w = apply_option E opt s w"

fun calls :: "env \<Rightarrow> (nat \<times> SpanCall) list \<Rightarrow> world \<Rightarrow> world option" where
  "calls E [] w = Some w"
| "calls E ((s, c) # cs) w = do { w1 \<leftarrow> call E s c w; calls E cs w1 }"

text \<open>
  The frame of these calls, between a state and a later one: no span is added
  or removed, the stores of endpoints and of annotations only grow at the end,
  and the identity of every span stays what it was.
\<close>

definition later :: "world \<Rightarrow> world \<Rightarrow> bool" where
  "later w w' \<longleftrightarrow>
     length (spans w') = length (spans w) \<and>
     prefix (endpoints w) (endpoints w') \<and>
     vars w' = vars w \<and> collected w' = collected w \<and> ids w' = ids w \<and>
     (\<forall>p < length (spans w).
        traceID (spans w' ! p) = traceID (spans w ! p) \<and>
        spanID (spans w' ! p) = spanID (spans w ! p) \<and>
        parentSpanID (spans w' ! p) = parentSpanID (spans w ! p) \<and>
        methodName (spans w' ! p) = methodName (spans w ! p) \<and>
        runSampler (spans w' ! p) = runSampler (spans w ! p) \<and>
        prefix (annotations (spans w ! p)) (annotations (spans w' ! p)) \<and>
        prefix (binaryAnnotations (spans w ! p)) (binaryAnnotations (spans w' ! p)))"


section \<open>Reading the results\<close>

text \<open>
  The integer an 8-, 16- or 32-bit argument of \<^verbatim>\<open>AnnotateBinary\<close> stands for,
  with the signedness of its type (\<open>True\<close> for a signed type).
\<close>

definition small_int :: "Value \<Rightarrow> (bool \<times> int) option" where
  "small_int v =
     (case v of
        V_byte x \<Rightarrow> Some (False, uint x)
      | V_int8 x \<Rightarrow> Some (True, sint x)
      | V_int16 x \<Rightarrow> Some (True, sint x)
      | V_uint16 x \<Rightarrow> Some (False, uint x)
      | V_int32 x \<Rightarrow> Some (True, sint x)
      | V_uint32 x \<Rightarrow> Some (False, uint x)
      | _ \<Rightarrow> None)"

text \<open>The span behind the pointer that \<^verbatim>\<open>NewChildSpan\<close> returned.\<close>

definition returned_span :: "((nat option \<times> CollectFunc) \<times> world) option \<Rightarrow> Span option" where
  "returned_span r =
     (case r of Some ((Some c, f), w') \<Rightarrow> deref w' c | _ \<Rightarrow> None)"

text \<open>
  The scenario \<^verbatim>\<open>NewSpan(hostport, serviceName, methodName, 1, 2, 0)\<close>,
  \<^verbatim>\<open>Annotate("cs")\<close>, \<^verbatim>\<open>AnnotateBinary("http.status", 200)\<close>, \<^verbatim>\<open>Encode()\<close>. The
  constant \<^verbatim>\<open>200\<close> passed as an \<^verbatim>\<open>interface{}\<close> has the type \<^verbatim>\<open>int\<close>.
\<close>

definition http_status_scenario ::
  "env \<Rightarrow> string \<Rightarrow> string \<Rightarrow> string \<Rightarrow> world \<Rightarrow> zipkincore_Span option" where
  "http_status_scenario E hostport serviceName mName w =
     (case NewSpan E hostport serviceName mName 1 2 0 w of
        (s, w1) \<Rightarrow>
          do { w2 \<leftarrow> Annotate E s ''cs'' w1;
               w3 \<leftarrow> AnnotateBinary E s ''http.status'' (V_int 200) w2;
               (zs, w4) \<leftarrow> Encode s w3;
               Some zs })"

text \<open>
  A concrete environment and state for running the definitions: one host name
  resolves, first to an IPv6 and then to an IPv4 address; the state holds one
  endpoint and one span, at pointer 0, that has been annotated once of each kind.
\<close>

definition example_env :: env where
  "example_env =
     \<lparr>SplitHostPort = (\<lambda>s. if s = ''db:5432'' then Some (''db'', ''5432'') else None),
      ParseInt = (\<lambda>s. if s = ''5432'' then Some 5432 else None),
      LookupIP = (\<lambda>h. if h = ''db''
                      then Some [[32, 1, 13, 184, 0, 0, 0, 0, 0, 0, 0, 0, 0, 0, 0, 1],
                                 [10, 0, 0, 7]]
                      else None),
      Now = (\<lambda>n. 1000000 + 1500 * of_nat n),
      float64_of_float32 = (\<lambda>x. 0),
      newID = (\<lambda>n. 100 + of_nat n),
      ClientSend = ''cs'', ClientReceive = ''cr'', ServerAddress = ''sa''\<rparr>"

definition example_parent :: Span where
  "example_parent =
     \<lparr>host = Some 0, methodName = ''handle'', traceID = 7, spanID = 8, parentSpanID = 0,
      annotations = [\<lparr>timestamp = 1000000, value = ''sr'', a_host = Some 0\<rparr>],
      binaryAnnotations =
        [\<lparr>key = ''path'', b_value = [47], annotationType = AnnotationType_STRING,
          b_host = Some 0\<rparr>],
      debug = False, sampled = True, runSampler = True\<rparr>"

definition example_world :: world where
  "example_world =
     \<lparr>endpoints = [\<lparr>Ipv4 = 2130706433, Port = 8080, ServiceName = ''front''\<rparr>],
      spans = [example_parent], vars = [], collected = [], clock = 1, ids = 0\<rparr>"


section \<open>Properties of the store\<close>

lemma deref_store:
  "deref (store s sp w) p =
     (if p = s \<and> s < length (spans w) then Some sp else deref w p)"
  by (simp add: deref_def store_def)

lemma deref_Some_less: "deref w p = Some sp \<Longrightarrow> p < length (spans w)"
  by (simp add: deref_def split: if_splits)

lemma deref_nth: "deref w p = Some sp \<Longrightarrow> spans w ! p = sp"
  by (simp add: deref_def split: if_splits)

lemma deref_example: "deref example_world 0 = Some example_parent"
  by (simp add: deref_def example_world_def)


section \<open>Big-endian bytes\<close>

lemma update4: "(replicate 4 z)[0 := a0, 1 := a1, 2 := a2, 3 := a3] = [a0, a1, a2, a3]"
  by (simp add: numeral_eq_Suc)

lemma update4of8:
  "(replicate 8 z)[0 := a0, 1 := a1, 2 := a2, 3 := a3] = [a0, a1, a2, a3, z, z, z, z]"
  by (simp add: numeral_eq_Suc)

lemma update8:
  "(replicate 8 z)[0 := a0, 1 := a1, 2 := a2, 3 := a3, 4 := a4, 5 := a5, 6 := a6, 7 := a7] =
     [a0, a1, a2, a3, a4, a5, a6, a7]"
  by (simp add: numeral_eq_Suc)

lemma PutUint32_4:
  "PutUint32 (make_bytes 4) x =
     [ucast (drop_bit 24 x), ucast (drop_bit 16 x), ucast (drop_bit 8 x), ucast x]"
  unfolding PutUint32_def make_bytes_def by (rule update4)

lemma PutUint32_8:
  "PutUint32 (make_bytes 8) x =
     [ucast (drop_bit 24 x), ucast (drop_bit 16 x), ucast (drop_bit 8 x), ucast x, 0, 0, 0, 0]"
  unfolding PutUint32_def make_bytes_def by (rule update4of8)

lemma PutUint64_8:
  "PutUint64 (make_bytes 8) x =
     [ucast (drop_bit 56 x), ucast (drop_bit 48 x), ucast (drop_bit 40 x),
      ucast (drop_bit 32 x), ucast (drop_bit 24 x), ucast (drop_bit 16 x),
      ucast (drop_bit 8 x), ucast x]"
  unfolding PutUint64_def make_bytes_def by (rule update8)

lemma unat_drop: "unat (drop_bit k (x::'a::len word)) = unat x div 2 ^ k"
  unfolding unat_drop_bit_eq by (rule drop_bit_eq_div)

lemma unat_byte_low: "unat (ucast (x::'a::len word) :: 8 word) = unat x mod 256"
  by (simp add: unsigned_ucast_eq take_bit_eq_mod)

lemma next_byte: "m = n div (k * 256) \<Longrightarrow> m * 256 + n div k mod 256 = (n::nat) div k"
  by (simp add: div_mult2_eq)

lemma be4:
  assumes "n < 2 ^ 32"
  shows "((n div 2 ^ 24 mod 256 * 256 + n div 2 ^ 16 mod 256) * 256 + n div 2 ^ 8 mod 256) * 256
           + n mod 256 = (n::nat)"
proof -
  have 0: "n div 2 ^ 24 mod 256 = n div 2 ^ 24"
    using assms by (simp add: less_mult_imp_div_less)
  have 1: "n div 2 ^ 24 * 256 + n div 2 ^ 16 mod 256 = n div 2 ^ 16"
    by (rule next_byte) simp
  have 2: "n div 2 ^ 16 * 256 + n div 2 ^ 8 mod 256 = n div 2 ^ 8"
    by (rule next_byte) simp
  have 3: "n div 2 ^ 8 * 256 + n mod 256 = n"
    by simp
  show ?thesis unfolding 0 1 2 3 ..
qed

lemma be8:
  assumes "n < 2 ^ 64"
  shows "((((((n div 2 ^ 56 mod 256 * 256 + n div 2 ^ 48 mod 256) * 256
             + n div 2 ^ 40 mod 256) * 256 + n div 2 ^ 32 mod 256) * 256
             + n div 2 ^ 24 mod 256) * 256 + n div 2 ^ 16 mod 256) * 256
             + n div 2 ^ 8 mod 256) * 256 + n mod 256 = (n::nat)"
proof -
  have 0: "n div 2 ^ 56 mod 256 = n div 2 ^ 56"
    using assms by (simp add: less_mult_imp_div_less)
  have 1: "n div 2 ^ 56 * 256 + n div 2 ^ 48 mod 256 = n div 2 ^ 48"
    by (rule next_byte) simp
  have 2: "n div 2 ^ 48 * 256 + n div 2 ^ 40 mod 256 = n div 2 ^ 40"
    by (rule next_byte) simp
  have 3: "n div 2 ^ 40 * 256 + n div 2 ^ 32 mod 256 = n div 2 ^ 32"
    by (rule next_byte) simp
  have 4: "n div 2 ^ 32 * 256 + n div 2 ^ 24 mod 256 = n div 2 ^ 24"
    by (rule next_byte) simp
  have 5: "n div 2 ^ 24 * 256 + n div 2 ^ 16 mod 256 = n div 2 ^ 16"
    by (rule next_byte) simp
  have 6: "n div 2 ^ 16 * 256 + n div 2 ^ 8 mod 256 = n div 2 ^ 8"
    by (rule next_byte) simp
  have 7: "n div 2 ^ 8 * 256 + n mod 256 = n"
    by simp
  show ?thesis unfolding 0 1 2 3 4 5 6 7 ..
qed

lemma be_nat_list4:
  "be_nat [a, b, c, d] = ((unat a * 256 + unat b) * 256 + unat c) * 256 + unat d"
  by (simp add: be_nat_def)

lemma be_nat_list8:
  "be_nat [a, b, c, d, e, f, g, h] =
     ((((((unat a * 256 + unat b) * 256 + unat c) * 256 + unat d) * 256 + unat e) * 256
        + unat f) * 256 + unat g) * 256 + unat h"
  by (simp add: be_nat_def)

lemma be_nat_4:
  "be_nat [ucast (drop_bit 24 x), ucast (drop_bit 16 x), ucast (drop_bit 8 x),
           ucast (x::32 word)] = unat x"
proof -
  have lt: "unat x < 2 ^ 32" using unsigned_less [of x] by simp
  show ?thesis
    unfolding be_nat_list4 unat_byte_low unat_drop by (rule be4 [OF lt])
qed

lemma be_nat_8:
  "be_nat [ucast (drop_bit 56 x), ucast (drop_bit 48 x), ucast (drop_bit 40 x),
           ucast (drop_bit 32 x), ucast (drop_bit 24 x), ucast (drop_bit 16 x),
           ucast (drop_bit 8 x), ucast (x::64 word)] = unat x"
proof -
  have lt: "unat x < 2 ^ 64" using unsigned_less [of x] by simp
  show ?thesis
    unfolding be_nat_list8 unat_byte_low unat_drop by (rule be8 [OF lt])
qed

lemma Uint32_4:
  "Uint32 [ucast (drop_bit 24 x), ucast (drop_bit 16 x), ucast (drop_bit 8 x), ucast x] = x"
proof (rule bit_word_eqI)
  fix n assume "n < LENGTH(32)"
  then consider "n < 8" | "8 \<le> n" "n < 16" | "16 \<le> n" "n < 24" | "24 \<le> n" "n < 32"
    by fastforce
  then show "bit (Uint32 [ucast (drop_bit 24 x), ucast (drop_bit 16 x),
                          ucast (drop_bit 8 x), ucast x]) n = bit x n"
    by cases (auto simp add: Uint32_def bit_simps)
qed

lemma Uint64_8:
  "Uint64 [ucast (drop_bit 56 x), ucast (drop_bit 48 x), ucast (drop_bit 40 x),
           ucast (drop_bit 32 x), ucast (drop_bit 24 x), ucast (drop_bit 16 x),
           ucast (drop_bit 8 x), ucast x] = x"
proof (rule bit_word_eqI)
  fix n assume "n < LENGTH(64)"
  then consider "n < 8" | "8 \<le> n" "n < 16" | "16 \<le> n" "n < 24" | "24 \<le> n" "n < 32"
    | "32 \<le> n" "n < 40" | "40 \<le> n" "n < 48" | "48 \<le> n" "n < 56" | "56 \<le> n" "n < 64"
    by fastforce
  then show "bit (Uint64 [ucast (drop_bit 56 x), ucast (drop_bit 48 x), ucast (drop_bit 40 x),
                          ucast (drop_bit 32 x), ucast (drop_bit 24 x), ucast (drop_bit 16 x),
                          ucast (drop_bit 8 x), ucast x]) n = bit x n"
    by cases (auto simp add: Uint64_def bit_simps)
qed

lemma be32:
  "length (PutUint32 (make_bytes 4) x) = 4 \<and> Uint32 (PutUint32 (make_bytes 4) x) = x \<and>
   be_nat (PutUint32 (make_bytes 4) x) = unat x"
  by (simp add: PutUint32_4 Uint32_4 be_nat_4)

lemma be64:
  "length (PutUint64 (make_bytes 8) x) = 8 \<and> Uint64 (PutUint64 (make_bytes 8) x) = x \<and>
   be_nat (PutUint64 (make_bytes 8) x) = unat x"
  by (simp add: PutUint64_8 Uint64_8 be_nat_8)


section \<open>AnnotateBinary on integers\<close>

lemma AnnotateBinary_Some:
  assumes "deref w s = Some sp"
  shows "AnnotateBinary E s k v w =
    Some (store s (sp\<lparr>binaryAnnotations := binaryAnnotations sp @
        [\<lparr>key = k, b_value = snd (encode_value E v),
          annotationType = fst (encode_value E v), b_host = host sp\<rparr>]\<rparr>) w)"
  using assms by (simp add: AnnotateBinary_def split: prod.splits)

lemma AnnotateBinary_appends:
  assumes "deref w s = Some sp"
  shows "\<exists>w' sp'. AnnotateBinary E s k v w = Some w' \<and> deref w' s = Some sp' \<and>
     binaryAnnotations sp' = binaryAnnotations sp @
        [\<lparr>key = k, b_value = snd (encode_value E v),
          annotationType = fst (encode_value E v), b_host = host sp\<rparr>]"
  using assms deref_Some_less [OF assms]
  by (simp add: AnnotateBinary_Some deref_store)

lemma small_int_cases:
  assumes "small_int v = Some (sg, n)"
  shows "\<exists>x. encode_value E v = (AnnotationType_I32, PutUint32 (make_bytes 4) x) \<and>
     (if sg then sint x else uint x) = n"
proof (cases v)
  case (V_byte a)
  have "uint (ucast a :: 32 word) = uint a" by (rule uint_up_ucast) (simp add: is_up)
  with assms V_byte show ?thesis by (auto simp: small_int_def)
next
  case (V_int8 a)
  have "sint (scast a :: 32 word) = sint a" by (rule sint_up_scast) (simp add: is_up)
  with assms V_int8 show ?thesis by (auto simp: small_int_def)
next
  case (V_int16 a)
  have "sint (scast a :: 32 word) = sint a" by (rule sint_up_scast) (simp add: is_up)
  with assms V_int16 show ?thesis by (auto simp: small_int_def)
next
  case (V_uint16 a)
  have "uint (ucast a :: 32 word) = uint a" by (rule uint_up_ucast) (simp add: is_up)
  with assms V_uint16 show ?thesis by (auto simp: small_int_def)
qed (use assms in \<open>auto simp: small_int_def\<close>)

text \<open>
  C8. Called on a span with an 8-, 16- or 32-bit integer, signed or unsigned,
  \<^verbatim>\<open>AnnotateBinary\<close> appends one binary annotation with the key, the span's
  host and the wire type I32 (not I16). Its value has exactly 4 bytes, which are
  the big-endian bytes of a 32-bit word \<open>x\<close>: they denote \<open>unat x\<close> and \<^verbatim>\<open>Uint32\<close>
  reads \<open>x\<close> back. Read with the signedness of the argument's type, \<open>x\<close> is the
  integer that was passed, so the widening extends a signed argument by its sign
  and an unsigned one by zeros.
\<close>

theorem AnnotateBinary_small_int:
  assumes "deref w s = Some sp" and "small_int v = Some (sg, n)"
  shows "\<exists>w' sp' bs x.
     AnnotateBinary E s k v w = Some w' \<and> deref w' s = Some sp' \<and>
     binaryAnnotations sp' = binaryAnnotations sp @
       [\<lparr>key = k, b_value = bs, annotationType = AnnotationType_I32, b_host = host sp\<rparr>] \<and>
     length bs = 4 \<and> be_nat bs = unat (x :: 32 word) \<and> Uint32 bs = x \<and>
     (if sg then sint x else uint x) = n"
proof -
  from small_int_cases [OF assms(2)] obtain x where
    enc: "encode_value E v = (AnnotationType_I32, PutUint32 (make_bytes 4) x)"
    and val: "(if sg then sint x else uint x) = n" by blast
  from AnnotateBinary_appends [OF assms(1), of E k v] obtain w' sp' where
    "AnnotateBinary E s k v w = Some w'" "deref w' s = Some sp'"
    "binaryAnnotations sp' = binaryAnnotations sp @
       [\<lparr>key = k, b_value = PutUint32 (make_bytes 4) x, annotationType = AnnotationType_I32,
         b_host = host sp\<rparr>]"
    by (auto simp: enc)
  with val be32 [of x] show ?thesis by blast
qed

theorem AnnotateBinary_small_int_witness:
  "deref example_world 0 = Some example_parent \<and>
   small_int (V_int16 (- 2)) = Some (True, - 2) \<and>
   (\<exists>w' sp' bs x.
     AnnotateBinary example_env 0 ''n'' (V_int16 (- 2)) example_world = Some w' \<and>
     deref w' 0 = Some sp' \<and>
     binaryAnnotations sp' = binaryAnnotations example_parent @
       [\<lparr>key = ''n'', b_value = bs, annotationType = AnnotationType_I32,
         b_host = host example_parent\<rparr>] \<and>
     length bs = 4 \<and> be_nat bs = unat (x :: 32 word) \<and> Uint32 bs = x \<and>
     (if True then sint x else uint x) = - 2)"
proof -
  have h: "small_int (V_int16 (- 2)) = Some (True, - 2)"
    by (simp add: small_int_def)
  show ?thesis
    using deref_example h
      AnnotateBinary_small_int [OF deref_example h, of example_env "''n''"]
    by simp
qed

text \<open>
  C9. Called on a span with an \<^verbatim>\<open>int64\<close> or a \<^verbatim>\<open>uint64\<close>, \<^verbatim>\<open>AnnotateBinary\<close>
  appends one binary annotation with the wire type I64 whose value has 8 bytes,
  the big-endian bytes of the argument; decoding them with \<^verbatim>\<open>Uint64\<close> gives the
  argument back.
\<close>

theorem AnnotateBinary_int64:
  assumes "deref w s = Some sp" and "v = V_int64 n \<or> v = V_uint64 n"
  shows "\<exists>w' sp' bs.
     AnnotateBinary E s k v w = Some w' \<and> deref w' s = Some sp' \<and>
     binaryAnnotations sp' = binaryAnnotations sp @
       [\<lparr>key = k, b_value = bs, annotationType = AnnotationType_I64, b_host = host sp\<rparr>] \<and>
     length bs = 8 \<and> be_nat bs = unat n \<and> Uint64 bs = n"
proof -
  from assms(2) have enc: "encode_value E v = (AnnotationType_I64, PutUint64 (make_bytes 8) n)"
    by auto
  from AnnotateBinary_appends [OF assms(1), of E k v] obtain w' sp' where
    "AnnotateBinary E s k v w = Some w'" "deref w' s = Some sp'"
    "binaryAnnotations sp' = binaryAnnotations sp @
       [\<lparr>key = k, b_value = PutUint64 (make_bytes 8) n, annotationType = AnnotationType_I64,
         b_host = host sp\<rparr>]"
    by (auto simp: enc)
  with be64 [of n] show ?thesis by blast
qed

theorem AnnotateBinary_int64_witness:
  "deref example_world 0 = Some example_parent \<and>
   (V_int64 (- 3) = V_int64 (- 3) \<or> V_int64 (- 3) = V_uint64 (- 3)) \<and>
   (\<exists>w' sp' bs.
     AnnotateBinary example_env 0 ''n'' (V_int64 (- 3)) example_world = Some w' \<and>
     deref w' 0 = Some sp' \<and>
     binaryAnnotations sp' = binaryAnnotations example_parent @
       [\<lparr>key = ''n'', b_value = bs, annotationType = AnnotationType_I64,
         b_host = host example_parent\<rparr>] \<and>
     length bs = 8 \<and> be_nat bs = unat (- 3 :: 64 word) \<and> Uint64 bs = - 3)"
proof -
  have h: "V_int64 (- 3) = V_int64 (- 3) \<or> V_int64 (- 3) = V_uint64 (- 3)"
    by simp
  show ?thesis
    using deref_example AnnotateBinary_int64 [OF deref_example h, of example_env "''n''"]
    by simp
qed

text \<open>
  C3. Called on a span with a platform \<^verbatim>\<open>int\<close> or \<^verbatim>\<open>uint\<close>, \<^verbatim>\<open>AnnotateBinary\<close>
  appends one binary annotation with the wire type I32 whose value has 8 bytes:
  the first four are the big-endian bytes of the argument truncated to 32 bits,
  the last four are zero.
\<close>

theorem AnnotateBinary_int:
  assumes "deref w s = Some sp" and "v = V_int n \<or> v = V_uint n"
  shows "\<exists>w' sp' bs.
     AnnotateBinary E s k v w = Some w' \<and> deref w' s = Some sp' \<and>
     binaryAnnotations sp' = binaryAnnotations sp @
       [\<lparr>key = k, b_value = bs, annotationType = AnnotationType_I32, b_host = host sp\<rparr>] \<and>
     length bs = 8 \<and> be_nat (take 4 bs) = unat n mod 2 ^ 32 \<and>
     Uint32 (take 4 bs) = ucast n \<and> drop 4 bs = [0, 0, 0, 0]"
proof -
  let ?bs = "PutUint32 (make_bytes 8) (ucast n)"
  from assms(2) have enc: "encode_value E v = (AnnotationType_I32, ?bs)"
    by auto
  have split: "?bs = PutUint32 (make_bytes 4) (ucast n) @ [0, 0, 0, 0]"
    by (simp add: PutUint32_4 PutUint32_8)
  have trunc: "unat (ucast n :: 32 word) = unat n mod 2 ^ 32"
    by (simp add: unsigned_ucast_eq take_bit_eq_mod)
  have bytes: "length ?bs = 8 \<and> be_nat (take 4 ?bs) = unat n mod 2 ^ 32 \<and>
     Uint32 (take 4 ?bs) = ucast n \<and> drop 4 ?bs = [0, 0, 0, 0]"
    using be32 [of "ucast n :: 32 word"] by (simp add: split trunc)
  from AnnotateBinary_appends [OF assms(1), of E k v] obtain w' sp' where
    "AnnotateBinary E s k v w = Some w'" "deref w' s = Some sp'"
    "binaryAnnotations sp' = binaryAnnotations sp @
       [\<lparr>key = k, b_value = ?bs, annotationType = AnnotationType_I32, b_host = host sp\<rparr>]"
    by (auto simp: enc)
  with bytes show ?thesis by blast
qed

theorem AnnotateBinary_int_witness:
  "deref example_world 0 = Some example_parent \<and>
   (V_uint 4294967496 = V_int 4294967496 \<or> V_uint 4294967496 = V_uint 4294967496) \<and>
   (\<exists>w' sp' bs.
     AnnotateBinary example_env 0 ''n'' (V_uint 4294967496) example_world = Some w' \<and>
     deref w' 0 = Some sp' \<and>
     binaryAnnotations sp' = binaryAnnotations example_parent @
       [\<lparr>key = ''n'', b_value = bs, annotationType = AnnotationType_I32,
         b_host = host example_parent\<rparr>] \<and>
     length bs = 8 \<and> be_nat (take 4 bs) = unat (4294967496 :: 64 word) mod 2 ^ 32 \<and>
     Uint32 (take 4 bs) = ucast (4294967496 :: 64 word) \<and> drop 4 bs = [0, 0, 0, 0])"
proof -
  have h: "V_uint 4294967496 = V_int 4294967496 \<or> V_uint 4294967496 = V_uint 4294967496"
    by simp
  show ?thesis
    using deref_example AnnotateBinary_int [OF deref_example h, of example_env "''n''"]
    by simp
qed


section \<open>The frame of the methods and options\<close>

lemma store_fields:
  "endpoints (store s sp w) = endpoints w" "vars (store s sp w) = vars w"
  "collected (store s sp w) = collected w" "clock (store s sp w) = clock w"
  "ids (store s sp w) = ids w" "length (spans (store s sp w)) = length (spans w)"
  by (simp_all add: store_def)

lemma store_store: "store s a (store s b w) = store s a w"
  by (simp add: store_def)

lemma deref_frame:
  "deref (w\<lparr>clock := c\<rparr>) p = deref w p"
  "deref (w\<lparr>endpoints := es\<rparr>) p = deref w p"
  "deref (w\<lparr>vars := vs\<rparr>) p = deref w p"
  "deref (w\<lparr>collected := cl\<rparr>) p = deref w p"
  by (simp_all add: deref_def)

lemma later_refl: "later w w"
  by (simp add: later_def)

lemma later_trans: "later a b \<Longrightarrow> later b c \<Longrightarrow> later a c"
  unfolding later_def by (auto intro: prefix_order.trans)

lemma later_clock: "later w (w\<lparr>clock := c\<rparr>)"
  by (simp add: later_def)

lemma later_endpoints: "later w (w\<lparr>endpoints := endpoints w @ es\<rparr>)"
  by (simp add: later_def)

lemma later_store:
  assumes "deref w s = Some sp"
    and "traceID sp' = traceID sp" and "spanID sp' = spanID sp"
    and "parentSpanID sp' = parentSpanID sp" and "methodName sp' = methodName sp"
    and "runSampler sp' = runSampler sp"
    and "prefix (annotations sp) (annotations sp')"
    and "prefix (binaryAnnotations sp) (binaryAnnotations sp')"
  shows "later w (store s sp' w)"
proof -
  have lt: "s < length (spans w)" by (rule deref_Some_less [OF assms(1)])
  have eq: "spans w ! s = sp" by (rule deref_nth [OF assms(1)])
  have nth: "\<And>p. (spans w)[s := sp'] ! p = (if p = s then sp' else spans w ! p)"
    using lt by (simp add: nth_list_update)
  show ?thesis
    unfolding later_def store_def using assms(2-) by (simp add: nth eq)
qed

lemma makeEndpoint_cases:
  "makeEndpoint E hostport serviceName w = (None, w) \<or>
   (\<exists>ep. makeEndpoint E hostport serviceName w =
      (Some (length (endpoints w)), w\<lparr>endpoints := endpoints w @ [ep]\<rparr>))"
  by (auto simp: makeEndpoint_def split: option.splits prod.splits)

lemma Sample_Some:
  "deref w s = Some sp \<Longrightarrow> Sample s w = Some (store s (sp\<lparr>sampled := True\<rparr>) w)"
  by (simp add: Sample_def)

lemma SetDebug_Some:
  "deref w s = Some sp \<Longrightarrow> SetDebug s w = Some (store s (sp\<lparr>debug := True\<rparr>) w)"
  by (simp add: SetDebug_def)

lemma Annotate_Some:
  "deref w s = Some sp \<Longrightarrow>
   Annotate E s v w =
     Some (store s (sp\<lparr>annotations := annotations sp @
              [\<lparr>timestamp = Now E (clock w), value = v, a_host = host sp\<rparr>]\<rparr>)
            (w\<lparr>clock := Suc (clock w)\<rparr>))"
  by (simp add: Annotate_def)

lemma AnnotateString_Some:
  "deref w s = Some sp \<Longrightarrow>
   AnnotateString s k v w =
     Some (store s (sp\<lparr>binaryAnnotations := binaryAnnotations sp @
              [\<lparr>key = k, b_value = bytes_of_string v,
                annotationType = AnnotationType_STRING, b_host = host sp\<rparr>]\<rparr>) w)"
  by (simp add: AnnotateString_def)

lemma ServerAddr_fails:
  assumes "fst (makeEndpoint E hostport serviceName w) = None"
  shows "apply_option E (ServerAddr hostport serviceName) s w = Some w"
  using assms makeEndpoint_cases [of E hostport serviceName w] by auto

lemma ServerAddr_resolves:
  assumes "deref w s = Some sp"
    and "makeEndpoint E hostport serviceName w = (Some e, w1)"
  shows "apply_option E (ServerAddr hostport serviceName) s w =
     Some (store s (sp\<lparr>binaryAnnotations := binaryAnnotations sp @
              [\<lparr>key = ServerAddress E, b_value = [1],
                annotationType = AnnotationType_BOOL, b_host = Some e\<rparr>]\<rparr>) w1)"
proof -
  from assms(2) makeEndpoint_cases [of E hostport serviceName w]
  obtain ep where w1: "w1 = w\<lparr>endpoints := endpoints w @ [ep]\<rparr>" by auto
  have d1: "deref w1 s = Some sp" using assms(1) by (simp add: w1 deref_frame)
  have lt: "s < length (spans w1)" by (rule deref_Some_less [OF d1])
  have d2: "deref (store s (sp\<lparr>host := Some e\<rparr>) w1) s = Some (sp\<lparr>host := Some e\<rparr>)"
    using lt by (simp add: deref_store)
  show ?thesis
    using lt
    by (simp add: assms(2) d1 AnnotateBinary_Some [OF d2] deref_store store_fields store_store)
qed

lemma Host_fails:
  assumes "fst (makeEndpoint E hostport serviceName w) = None"
  shows "apply_option E (Host hostport serviceName) s w = Some w"
  using assms makeEndpoint_cases [of E hostport serviceName w] by auto

lemma Host_resolves:
  assumes "deref w s = Some sp"
    and "makeEndpoint E hostport serviceName w = (Some e, w1)"
  shows "apply_option E (Host hostport serviceName) s w = Some (store s (sp\<lparr>host := Some e\<rparr>) w1)"
proof -
  from assms(2) makeEndpoint_cases [of E hostport serviceName w]
  obtain ep where w1: "w1 = w\<lparr>endpoints := endpoints w @ [ep]\<rparr>" by auto
  have d1: "deref w1 s = Some sp" using assms(1) by (simp add: w1 deref_frame)
  show ?thesis by (simp add: assms(2) d1)
qed

lemma Debug_Some:
  "deref w s = Some sp \<Longrightarrow> apply_option E (Debug d) s w = Some (store s (sp\<lparr>debug := d\<rparr>) w)"
  by simp

lemma later_deref:
  assumes "later w w'" and "deref w s = Some sp"
  shows "\<exists>sp'. deref w' s = Some sp' \<and>
     traceID sp' = traceID sp \<and> spanID sp' = spanID sp \<and>
     parentSpanID sp' = parentSpanID sp \<and> methodName sp' = methodName sp \<and>
     runSampler sp' = runSampler sp \<and>
     prefix (annotations sp) (annotations sp') \<and>
     prefix (binaryAnnotations sp) (binaryAnnotations sp')"
proof -
  have lt: "s < length (spans w)" by (rule deref_Some_less [OF assms(2)])
  have eq: "spans w ! s = sp" by (rule deref_nth [OF assms(2)])
  from assms(1) lt have "deref w' s = Some (spans w' ! s)"
    by (simp add: later_def deref_def)
  with assms(1) lt eq show ?thesis
    unfolding later_def by auto
qed

lemma later_length: "later w w' \<Longrightarrow> length (spans w') = length (spans w)"
  by (simp add: later_def)

lemma call_later:
  assumes "s < length (spans w)"
  shows "\<exists>w'. call E s c w = Some w' \<and> later w w'"
proof -
  from assms obtain sp where d: "deref w s = Some sp" by (auto simp: deref_def)
  show ?thesis
  proof (cases c)
    case Call_Sample
    then show ?thesis using d by (simp add: Sample_Some later_store)
  next
    case Call_SetDebug
    then show ?thesis using d by (simp add: SetDebug_Some later_store)
  next
    case (Call_Annotate v)
    have d': "deref (w\<lparr>clock := Suc (clock w)\<rparr>) s = Some sp"
      using d by (simp add: deref_frame)
    have "later (w\<lparr>clock := Suc (clock w)\<rparr>)
       (store s (sp\<lparr>annotations := annotations sp @
              [\<lparr>timestamp = Now E (clock w), value = v, a_host = host sp\<rparr>]\<rparr>)
            (w\<lparr>clock := Suc (clock w)\<rparr>))"
      by (rule later_store [OF d']) simp_all
    with later_clock [of w "Suc (clock w)"] Call_Annotate d show ?thesis
      by (auto simp: Annotate_Some intro: later_trans)
  next
    case (Call_AnnotateBinary k v)
    then show ?thesis using d by (simp add: AnnotateBinary_Some later_store)
  next
    case (Call_AnnotateString k v)
    then show ?thesis using d by (simp add: AnnotateString_Some later_store)
  next
    case (Call_option opt)
    show ?thesis
    proof (cases opt)
      case (Debug b)
      with Call_option d show ?thesis by (simp add: later_store)
    next
      case (Host hostport serviceName)
      show ?thesis
      proof (cases "makeEndpoint E hostport serviceName w")
        case (Pair r w1)
        show ?thesis
        proof (cases r)
          case None
          with Pair makeEndpoint_cases [of E hostport serviceName w] have "w1 = w" by auto
          with None Pair Call_option Host show ?thesis by (simp add: later_refl)
        next
          case (Some e)
          from Pair Some makeEndpoint_cases [of E hostport serviceName w]
          obtain ep where w1: "w1 = w\<lparr>endpoints := endpoints w @ [ep]\<rparr>" by auto
          have d1: "deref w1 s = Some sp" using d by (simp add: w1 deref_frame)
          have "later w1 (store s (sp\<lparr>host := Some e\<rparr>) w1)"
            by (rule later_store [OF d1]) simp_all
          moreover have "later w w1" unfolding w1 by (rule later_endpoints)
          ultimately have "later w (store s (sp\<lparr>host := Some e\<rparr>) w1)"
            by (rule later_trans [rotated])
          with Call_option Host Host_resolves [OF d] Pair Some show ?thesis by simp
        qed
      qed
    next
      case (ServerAddr hostport serviceName)
      show ?thesis
      proof (cases "makeEndpoint E hostport serviceName w")
        case (Pair r w1)
        show ?thesis
        proof (cases r)
          case None
          with Pair makeEndpoint_cases [of E hostport serviceName w] have "w1 = w" by auto
          with None Pair Call_option ServerAddr show ?thesis by (simp add: later_refl)
        next
          case (Some e)
          from Pair Some makeEndpoint_cases [of E hostport serviceName w]
          obtain ep where w1: "w1 = w\<lparr>endpoints := endpoints w @ [ep]\<rparr>" by auto
          have d1: "deref w1 s = Some sp" using d by (simp add: w1 deref_frame)
          let ?sp = "sp\<lparr>binaryAnnotations := binaryAnnotations sp @
              [\<lparr>key = ServerAddress E, b_value = [1],
                annotationType = AnnotationType_BOOL, b_host = Some e\<rparr>]\<rparr>"
          have "later w1 (store s ?sp w1)"
            by (rule later_store [OF d1]) simp_all
          moreover have "later w w1" unfolding w1 by (rule later_endpoints)
          ultimately have "later w (store s ?sp w1)"
            by (rule later_trans [rotated])
          with Call_option ServerAddr ServerAddr_resolves [OF d] Pair Some show ?thesis
            by simp
        qed
      qed
    qed
  qed
qed

lemma calls_later:
  assumes "\<forall>(q, c) \<in> set cs. q < length (spans w)"
  shows "\<exists>w'. calls E cs w = Some w' \<and> later w w'"
  using assms
proof (induction cs arbitrary: w)
  case Nil
  then show ?case by (simp add: later_refl)
next
  case (Cons a cs)
  obtain q c where a: "a = (q, c)" by (cases a)
  with Cons.prems have "q < length (spans w)" by simp
  from call_later [OF this, of E c] obtain w1 where
    w1: "call E q c w = Some w1" "later w w1" by blast
  from Cons.prems w1(2) have "\<forall>(q, c) \<in> set cs. q < length (spans w1)"
    by (auto simp: later_length)
  from Cons.IH [OF this] obtain w' where "calls E cs w1 = Some w'" "later w1 w'" by blast
  with w1 a show ?case by (auto intro: later_trans)
qed

lemma prefix_nth: "prefix xs ys \<Longrightarrow> i < length xs \<Longrightarrow> ys ! i = xs ! i"
  by (auto simp: prefix_def nth_append)

text \<open>
  C7. Take any program of method calls and options on spans that exist, among
  them \<^verbatim>\<open>Host\<close> and \<^verbatim>\<open>ServerAddr\<close> on the span \<open>s\<close> itself. It runs to the end, and
  afterwards every annotation and binary annotation that \<open>s\<close> had before is still
  in its place and unchanged, so its host is the pointer stored when it was
  appended; the endpoint behind every pointer that existed before is unchanged
  too.
\<close>

theorem annotation_hosts_kept:
  assumes "\<forall>(q, c) \<in> set cs. q < length (spans w)" and "deref w s = Some sp"
  shows "\<exists>w' sp'. calls E cs w = Some w' \<and> deref w' s = Some sp' \<and>
     (\<forall>i < length (annotations sp). annotations sp' ! i = annotations sp ! i) \<and>
     (\<forall>i < length (binaryAnnotations sp).
        binaryAnnotations sp' ! i = binaryAnnotations sp ! i) \<and>
     (\<forall>e < length (endpoints w). endpoints w' ! e = endpoints w ! e)"
proof -
  from calls_later [OF assms(1), of E] obtain w' where
    w': "calls E cs w = Some w'" "later w w'" by blast
  from later_deref [OF w'(2) assms(2)] obtain sp' where
    sp': "deref w' s = Some sp'" "prefix (annotations sp) (annotations sp')"
      "prefix (binaryAnnotations sp) (binaryAnnotations sp')" by blast
  from w'(2) have "prefix (endpoints w) (endpoints w')" by (simp add: later_def)
  with w'(1) sp' show ?thesis by (auto simp: prefix_nth)
qed

theorem annotation_hosts_kept_witness:
  "\<exists>w' sp'.
     calls example_env
       [(0, Call_option (Host ''db:5432'' ''backend'')), (0, Call_Annotate ''ss''),
        (0, Call_option (ServerAddr ''db:5432'' ''postgres'')),
        (0, Call_AnnotateBinary ''rows'' (V_int 3))] example_world = Some w' \<and>
     deref w' 0 = Some sp' \<and>
     annotations sp' ! 0 = annotations example_parent ! 0 \<and>
     binaryAnnotations sp' ! 0 = binaryAnnotations example_parent ! 0 \<and>
     endpoints w' ! 0 = endpoints example_world ! 0"
proof -
  let ?cs = "[(0, Call_option (Host ''db:5432'' ''backend'')), (0, Call_Annotate ''ss''),
        (0, Call_option (ServerAddr ''db:5432'' ''postgres'')),
        (0, Call_AnnotateBinary ''rows'' (V_int 3))]"
  have h: "\<forall>(q, c) \<in> set ?cs. q < length (spans example_world)"
    by (simp add: example_world_def)
  have n: "0 < length (annotations example_parent)"
    "0 < length (binaryAnnotations example_parent)" "0 < length (endpoints example_world)"
    by (simp_all add: example_parent_def example_world_def)
  show ?thesis
    using annotation_hosts_kept [OF h deref_example, of example_env] n by blast
qed

text \<open>
  C10. Applied to a span, the option \<^verbatim>\<open>ServerAddr(hostport, serviceName)\<close> does
  the following. If \<^verbatim>\<open>makeEndpoint\<close> returns nil, the whole state is as before.
  If it returns an endpoint \<open>e\<close>, the span afterwards is the span before with one
  binary annotation appended, of key \<^verbatim>\<open>ServerAddress\<close>, type BOOL, value the single
  byte 1 and host \<open>e\<close>; every other field, the host among them, is as before, and
  so is every other span.
\<close>

theorem ServerAddr_restores_host:
  assumes "deref w s = Some sp"
  shows "(fst (makeEndpoint E hostport serviceName w) = None \<longrightarrow>
            apply_option E (ServerAddr hostport serviceName) s w = Some w) \<and>
         (\<forall>e. fst (makeEndpoint E hostport serviceName w) = Some e \<longrightarrow>
            (\<exists>w' sp'. apply_option E (ServerAddr hostport serviceName) s w = Some w' \<and>
               deref w' s = Some sp' \<and>
               sp' = sp\<lparr>binaryAnnotations := binaryAnnotations sp @
                        [\<lparr>key = ServerAddress E, b_value = [1],
                          annotationType = AnnotationType_BOOL, b_host = Some e\<rparr>]\<rparr> \<and>
               host sp' = host sp \<and>
               (\<forall>q. q \<noteq> s \<longrightarrow> deref w' q = deref w q)))"
proof (intro conjI allI impI)
  assume "fst (makeEndpoint E hostport serviceName w) = None"
  then show "apply_option E (ServerAddr hostport serviceName) s w = Some w"
    by (rule ServerAddr_fails)
next
  fix e assume e: "fst (makeEndpoint E hostport serviceName w) = Some e"
  then obtain w1 where m: "makeEndpoint E hostport serviceName w = (Some e, w1)"
    by (cases "makeEndpoint E hostport serviceName w") auto
  with makeEndpoint_cases [of E hostport serviceName w]
  obtain ep where w1: "w1 = w\<lparr>endpoints := endpoints w @ [ep]\<rparr>" by auto
  have lt: "s < length (spans w1)" using deref_Some_less [OF assms] by (simp add: w1)
  let ?sp = "sp\<lparr>binaryAnnotations := binaryAnnotations sp @
                        [\<lparr>key = ServerAddress E, b_value = [1],
                          annotationType = AnnotationType_BOOL, b_host = Some e\<rparr>]\<rparr>"
  have "deref (store s ?sp w1) s = Some ?sp" using lt by (simp add: deref_store)
  moreover have "\<forall>q. q \<noteq> s \<longrightarrow> deref (store s ?sp w1) q = deref w q"
    by (simp add: deref_store w1 deref_frame)
  ultimately show "\<exists>w' sp'. apply_option E (ServerAddr hostport serviceName) s w = Some w' \<and>
               deref w' s = Some sp' \<and> sp' = ?sp \<and> host sp' = host sp \<and>
               (\<forall>q. q \<noteq> s \<longrightarrow> deref w' q = deref w q)"
    using ServerAddr_resolves [OF assms m] by simp
qed

theorem ServerAddr_restores_host_witness:
  "fst (makeEndpoint example_env ''db:5432'' ''postgres'' example_world) = Some 1 \<and>
   (\<exists>w' sp'. apply_option example_env (ServerAddr ''db:5432'' ''postgres'') 0 example_world
        = Some w' \<and>
      deref w' 0 = Some sp' \<and>
      sp' = example_parent\<lparr>binaryAnnotations := binaryAnnotations example_parent @
               [\<lparr>key = ServerAddress example_env, b_value = [1],
                 annotationType = AnnotationType_BOOL, b_host = Some 1\<rparr>]\<rparr> \<and>
      host sp' = host example_parent) \<and>
   fst (makeEndpoint example_env ''db'' ''postgres'' example_world) = None \<and>
   apply_option example_env (ServerAddr ''db'' ''postgres'') 0 example_world
     = Some example_world"
proof -
  have ok: "fst (makeEndpoint example_env ''db:5432'' ''postgres'' example_world) = Some 1"
    by code_simp
  have no: "fst (makeEndpoint example_env ''db'' ''postgres'' example_world) = None"
    by code_simp
  show ?thesis
    using ok no
      ServerAddr_restores_host [OF deref_example, of example_env "''db:5432''" "''postgres''"]
      ServerAddr_restores_host [OF deref_example, of example_env "''db''" "''postgres''"]
    by blast
qed


section \<open>NewChildSpan, its closure, and Encode\<close>

lemma apply_option_child:
  assumes "deref w s = Some sp"
  shows "\<exists>w' sp'. apply_option E opt s w = Some w' \<and> deref w' s = Some sp' \<and>
     later w w' \<and> clock w' = clock w \<and>
     sampled sp' = sampled sp \<and> annotations sp' = annotations sp \<and>
     ((\<forall>hp sn. opt \<noteq> Host hp sn) \<longrightarrow> host sp' = host sp) \<and>
     ((\<forall>d. opt \<noteq> Debug d) \<longrightarrow> debug sp' = debug sp)"
proof -
  have lt: "s < length (spans w)" by (rule deref_Some_less [OF assms])
  from call_later [OF lt, of E "Call_option opt"] obtain w' where
    w': "apply_option E opt s w = Some w'" "later w w'" by auto
  have "\<exists>sp'. deref w' s = Some sp' \<and> clock w' = clock w \<and>
     sampled sp' = sampled sp \<and> annotations sp' = annotations sp \<and>
     ((\<forall>hp sn. opt \<noteq> Host hp sn) \<longrightarrow> host sp' = host sp) \<and>
     ((\<forall>d. opt \<noteq> Debug d) \<longrightarrow> debug sp' = debug sp)"
  proof (cases opt)
    case (Debug d)
    with w'(1) assms lt show ?thesis by (auto simp: deref_store store_fields)
  next
    case (Host hostport serviceName)
    show ?thesis
    proof (cases "fst (makeEndpoint E hostport serviceName w)")
      case None
      with Host_fails [OF None, of s] Host w'(1) assms show ?thesis by simp
    next
      case (Some e)
      then obtain w1 where m: "makeEndpoint E hostport serviceName w = (Some e, w1)"
        by (cases "makeEndpoint E hostport serviceName w") auto
      with makeEndpoint_cases [of E hostport serviceName w]
      obtain ep where w1: "w1 = w\<lparr>endpoints := endpoints w @ [ep]\<rparr>" by auto
      from Host_resolves [OF assms m] Host w'(1) lt show ?thesis
        by (auto simp: deref_store store_fields w1)
    qed
  next
    case (ServerAddr hostport serviceName)
    show ?thesis
    proof (cases "fst (makeEndpoint E hostport serviceName w)")
      case None
      with ServerAddr_fails [OF None, of s] ServerAddr w'(1) assms show ?thesis by simp
    next
      case (Some e)
      then obtain w1 where m: "makeEndpoint E hostport serviceName w = (Some e, w1)"
        by (cases "makeEndpoint E hostport serviceName w") auto
      with makeEndpoint_cases [of E hostport serviceName w]
      obtain ep where w1: "w1 = w\<lparr>endpoints := endpoints w @ [ep]\<rparr>" by auto
      from ServerAddr_resolves [OF assms m] ServerAddr w'(1) lt show ?thesis
        by (auto simp: deref_store store_fields w1)
    qed
  qed
  with w' show ?thesis by blast
qed

lemma apply_options_child:
  assumes "deref w s = Some sp"
  shows "\<exists>w' sp'. apply_options E opts s w = Some w' \<and> deref w' s = Some sp' \<and>
     later w w' \<and> clock w' = clock w \<and>
     sampled sp' = sampled sp \<and> annotations sp' = annotations sp \<and>
     ((\<forall>hp sn. Host hp sn \<notin> set opts) \<longrightarrow> host sp' = host sp) \<and>
     ((\<forall>d. Debug d \<notin> set opts) \<longrightarrow> debug sp' = debug sp)"
  using assms
proof (induction opts arbitrary: w sp)
  case Nil
  then show ?case by (simp add: later_refl)
next
  case (Cons opt opts)
  from apply_option_child [OF Cons.prems, of E opt] obtain w1 sp1 where
    1: "apply_option E opt s w = Some w1" "deref w1 s = Some sp1" "later w w1"
      "clock w1 = clock w" "sampled sp1 = sampled sp" "annotations sp1 = annotations sp"
      "(\<forall>hp sn. opt \<noteq> Host hp sn) \<longrightarrow> host sp1 = host sp"
      "(\<forall>d. opt \<noteq> Debug d) \<longrightarrow> debug sp1 = debug sp"
    by blast
  from Cons.IH [OF 1(2)] obtain w' sp' where
    2: "apply_options E opts s w1 = Some w'" "deref w' s = Some sp'" "later w1 w'"
      "clock w' = clock w1" "sampled sp' = sampled sp1" "annotations sp' = annotations sp1"
      "(\<forall>hp sn. Host hp sn \<notin> set opts) \<longrightarrow> host sp' = host sp1"
      "(\<forall>d. Debug d \<notin> set opts) \<longrightarrow> debug sp' = debug sp1"
    by blast
  have "later w w'" using 1(3) 2(3) by (rule later_trans)
  moreover have "(\<forall>hp sn. Host hp sn \<notin> set (opt # opts)) \<longrightarrow> host sp' = host sp"
    using 1(7) 2(7) by auto
  moreover have "(\<forall>d. Debug d \<notin> set (opt # opts)) \<longrightarrow> debug sp' = debug sp"
    using 1(8) 2(8) by auto
  ultimately show ?case using 1(1,4,5,6) 2(1,2,4,5,6) by simp
qed

lemma NewChildSpan_result:
  assumes "deref w p = Some parent"
  shows "\<exists>w' child.
     NewChildSpan E (Some p) collector mName opts w =
       Some ((Some (length (spans w)), collect_child collector (length (vars w))), w') \<and>
     deref w' (length (spans w)) = Some child \<and>
     methodName child = mName \<and> traceID child = traceID parent \<and>
     spanID child = newID E (ids w) \<and> parentSpanID child = spanID parent \<and>
     sampled child = sampled parent \<and> runSampler child = runSampler parent \<and>
     ((\<forall>hp sn. Host hp sn \<notin> set opts) \<longrightarrow> host child = host parent) \<and>
     ((\<forall>d. Debug d \<notin> set opts) \<longrightarrow> debug child = debug parent) \<and>
     annotations child =
       [\<lparr>timestamp = Now E (clock w), value = ClientSend E, a_host = host parent\<rparr>] \<and>
     length (spans w') = Suc (length (spans w)) \<and>
     vars w' = vars w @ [Some (length (spans w))] \<and>
     collected w' = collected w \<and> clock w' = Suc (clock w)"
proof -
  let ?c = "length (spans w)"
  let ?child0 = "\<lparr>host = host parent, methodName = mName, traceID = traceID parent,
       spanID = newID E (ids w), parentSpanID = spanID parent,
       annotations = [], binaryAnnotations = [],
       debug = debug parent, sampled = sampled parent, runSampler = runSampler parent\<rparr>"
  let ?w1 = "w\<lparr>spans := spans w @ [?child0], vars := vars w @ [Some ?c], ids := Suc (ids w)\<rparr>"
  let ?child1 = "?child0\<lparr>annotations := annotations ?child0 @
       [\<lparr>timestamp = Now E (clock ?w1), value = ClientSend E, a_host = host ?child0\<rparr>]\<rparr>"
  let ?w2 = "store ?c ?child1 (?w1\<lparr>clock := Suc (clock ?w1)\<rparr>)"
  have d1: "deref ?w1 ?c = Some ?child0" by (simp add: deref_def)
  have a: "Annotate E ?c (ClientSend E) ?w1 = Some ?w2" by (rule Annotate_Some [OF d1])
  have d2: "deref ?w2 ?c = Some ?child1" by (simp add: deref_store)
  from apply_options_child [OF d2, of E opts] obtain w' child where
    3: "apply_options E opts ?c ?w2 = Some w'" "deref w' ?c = Some child" "later ?w2 w'"
      "clock w' = clock ?w2" "sampled child = sampled ?child1"
      "annotations child = annotations ?child1"
      "(\<forall>hp sn. Host hp sn \<notin> set opts) \<longrightarrow> host child = host ?child1"
      "(\<forall>d. Debug d \<notin> set opts) \<longrightarrow> debug child = debug ?child1"
    by blast
  from later_deref [OF 3(3) d2] 3(2) have id:
    "traceID child = traceID ?child1" "spanID child = spanID ?child1"
    "parentSpanID child = parentSpanID ?child1" "methodName child = methodName ?child1"
    "runSampler child = runSampler ?child1"
    by auto
  have r: "NewChildSpan E (Some p) collector mName opts w =
       Some ((Some ?c, collect_child collector (length (vars w))), w')"
    unfolding NewChildSpan_def FromContext_def using assms a 3(1)
    by (simp add: Let_def)
  from 3(3) have fr: "length (spans w') = Suc ?c" "vars w' = vars w @ [Some ?c]"
    "collected w' = collected w"
    by (simp_all add: later_def store_fields)
  show ?thesis
    using r 3(2,4,5,6,7,8) id fr by (simp add: store_fields)
qed

text \<open>
  C1, as amended. When the context carries a pointer to a span, \<^verbatim>\<open>NewChildSpan\<close>
  returns a pointer to a child and the child has the parent's traceID, the
  parent's spanID as its parentSpanID, and the parent's sampled and runSampler
  flags. Its timing annotations are exactly one client-send annotation, taken
  at the time of the call and stamped with the parent's host. Its host is the
  parent's when no \<^verbatim>\<open>Host\<close> option is among the options, and its debug flag is
  the parent's when no \<^verbatim>\<open>Debug\<close> option is among them.
\<close>

theorem NewChildSpan_child:
  assumes "deref w p = Some parent"
  shows "\<exists>c f w' child.
     NewChildSpan E (Some p) collector mName options w = Some ((Some c, f), w') \<and>
     deref w' c = Some child \<and>
     traceID child = traceID parent \<and> parentSpanID child = spanID parent \<and>
     sampled child = sampled parent \<and> runSampler child = runSampler parent \<and>
     ((\<forall>hp sn. Host hp sn \<notin> set options) \<longrightarrow> host child = host parent) \<and>
     ((\<forall>d. Debug d \<notin> set options) \<longrightarrow> debug child = debug parent) \<and>
     annotations child =
       [\<lparr>timestamp = Now E (clock w), value = ClientSend E, a_host = host parent\<rparr>]"
  using NewChildSpan_result [OF assms, of E collector mName options] by blast

theorem NewChildSpan_child_witness:
  "deref example_world 0 = Some example_parent \<and>
   (\<forall>hp sn. Host hp sn \<notin> set [ServerAddr ''db:5432'' ''postgres'']) \<and>
   (\<forall>d. Debug d \<notin> set [ServerAddr ''db:5432'' ''postgres'']) \<and>
   (\<exists>c f w' child.
     NewChildSpan example_env (Some 0) 0 ''query'' [ServerAddr ''db:5432'' ''postgres'']
       example_world = Some ((Some c, f), w') \<and>
     deref w' c = Some child \<and>
     traceID child = traceID example_parent \<and> parentSpanID child = spanID example_parent \<and>
     sampled child = sampled example_parent \<and> runSampler child = runSampler example_parent \<and>
     host child = host example_parent \<and> debug child = debug example_parent \<and>
     annotations child =
       [\<lparr>timestamp = Now example_env (clock example_world), value = ClientSend example_env,
         a_host = host example_parent\<rparr>])"
  using deref_example
    NewChildSpan_child [OF deref_example, of example_env 0 "''query''"
      "[ServerAddr ''db:5432'' ''postgres'']"]
  by simp

text \<open>
  C1 as stated fails: with the option \<^verbatim>\<open>Debug(true)\<close> and a parent that is not
  in debug mode, the child that \<^verbatim>\<open>NewChildSpan\<close> returns is in debug mode.
\<close>

theorem NewChildSpan_debug_counterexample:
  "map_option debug (deref example_world 0) = Some False \<and>
   map_option debug
     (returned_span (NewChildSpan example_env (Some 0) 0 ''query'' [Debug True] example_world))
     = Some True"
  by code_simp

lemma call_CollectFunc_first:
  assumes "var < length (vars w)" and "vars w ! var = Some c" and "deref w c = Some sp"
  shows "call_CollectFunc E (collect_child collector var) w =
     Some ((Collect collector c
             (store c (sp\<lparr>annotations := annotations sp @
                [\<lparr>timestamp = Now E (clock w), value = ClientReceive E, a_host = host sp\<rparr>]\<rparr>)
               (w\<lparr>clock := Suc (clock w)\<rparr>)))
           \<lparr>vars := (vars w)[var := None]\<rparr>)"
  using assms by (simp add: Annotate_Some Collect_def store_fields)

lemma call_CollectFunc_again:
  assumes "var < length (vars w)" and "vars w ! var = None"
  shows "call_CollectFunc E (collect_child collector var) w = Some w"
  using assms by simp

text \<open>
  C2. After \<^verbatim>\<open>NewChildSpan\<close> on a context with a span, and after any further
  calls on the spans that exist by then, the first call of the returned function
  appends the client-receive annotation to the child and makes one call of the
  collector, with the child; the second call changes nothing, so the two calls
  in a row leave exactly that one collector call.
\<close>

theorem finalize_once:
  assumes "deref w p = Some parent" and "\<forall>(q, c) \<in> set cs. q \<le> length (spans w)"
  shows "\<exists>child f w1 w1' sp w2.
     NewChildSpan E (Some p) collector mName options w = Some ((Some child, f), w1) \<and>
     calls E cs w1 = Some w1' \<and> deref w1' child = Some sp \<and>
     collected w1' = collected w \<and>
     call_CollectFunc E f w1' = Some w2 \<and>
     deref w2 child = Some (sp\<lparr>annotations := annotations sp @
        [\<lparr>timestamp = Now E (clock w1'), value = ClientReceive E, a_host = host sp\<rparr>]\<rparr>) \<and>
     collected w2 = collected w @ [(collector, child)] \<and>
     call_CollectFunc E f w2 = Some w2 \<and>
     call_times 2 E f w1' = Some w2"
proof -
  let ?c = "length (spans w)" and ?v = "length (vars w)"
  let ?f = "collect_child collector ?v"
  from NewChildSpan_result [OF assms(1), of E collector mName options] obtain w1 sp0 where
    1: "NewChildSpan E (Some p) collector mName options w = Some ((Some ?c, ?f), w1)"
      "deref w1 ?c = Some sp0" "length (spans w1) = Suc ?c"
      "vars w1 = vars w @ [Some ?c]" "collected w1 = collected w"
    by blast
  from assms(2) 1(3) have "\<forall>(q, c) \<in> set cs. q < length (spans w1)" by auto
  from calls_later [OF this, of E] obtain w1' where
    2: "calls E cs w1 = Some w1'" "later w1 w1'" by blast
  from later_deref [OF 2(2) 1(2)] obtain sp where sp: "deref w1' ?c = Some sp" by blast
  from 2(2) 1(4,5) have fr: "vars w1' = vars w @ [Some ?c]" "collected w1' = collected w"
    by (simp_all add: later_def)
  have v: "?v < length (vars w1')" "vars w1' ! ?v = Some ?c" by (simp_all add: fr)
  let ?sp = "sp\<lparr>annotations := annotations sp @
        [\<lparr>timestamp = Now E (clock w1'), value = ClientReceive E, a_host = host sp\<rparr>]\<rparr>"
  let ?w2 = "(Collect collector ?c (store ?c ?sp (w1'\<lparr>clock := Suc (clock w1')\<rparr>)))
           \<lparr>vars := (vars w1')[?v := None]\<rparr>"
  have first: "call_CollectFunc E ?f w1' = Some ?w2"
    by (rule call_CollectFunc_first [OF v sp])
  have lt: "?c < length (spans w1')" by (rule deref_Some_less [OF sp])
  have d2: "deref ?w2 ?c = Some ?sp"
    using lt by (simp add: Collect_def deref_frame deref_store)
  have c2: "collected ?w2 = collected w @ [(collector, ?c)]"
    by (simp add: Collect_def store_fields fr)
  have v2: "?v < length (vars ?w2)" "vars ?w2 ! ?v = None"
    using v by simp_all
  have again: "call_CollectFunc E ?f ?w2 = Some ?w2"
    by (rule call_CollectFunc_again [OF v2])
  have twice: "call_times 2 E ?f w1' = Some ?w2"
    using first again by (simp add: numeral_2_eq_2)
  from 1(1) 2(1) sp fr(2) first d2 c2 again twice show ?thesis by blast
qed

theorem finalize_once_witness:
  "\<exists>child f w1 w1' sp w2.
     NewChildSpan example_env (Some 0) 4 ''query'' [ServerAddr ''db:5432'' ''postgres'']
       example_world = Some ((Some child, f), w1) \<and>
     calls example_env [(1, Call_AnnotateBinary ''rows'' (V_int 3)), (0, Call_Sample)] w1
       = Some w1' \<and>
     deref w1' child = Some sp \<and>
     collected w1' = collected example_world \<and>
     call_CollectFunc example_env f w1' = Some w2 \<and>
     deref w2 child = Some (sp\<lparr>annotations := annotations sp @
        [\<lparr>timestamp = Now example_env (clock w1'), value = ClientReceive example_env,
          a_host = host sp\<rparr>]\<rparr>) \<and>
     collected w2 = collected example_world @ [(4, child)] \<and>
     call_CollectFunc example_env f w2 = Some w2 \<and>
     call_times 2 example_env f w1' = Some w2"
proof -
  have h: "\<forall>(q, c) \<in> set [(1, Call_AnnotateBinary ''rows'' (V_int 3)), (0, Call_Sample)].
      q \<le> length (spans example_world)"
    by (simp add: example_world_def)
  show ?thesis
    by (rule finalize_once [OF deref_example h])
qed

lemma call_times_nothing: "call_times n E collect_nothing w = Some w"
  by (induction n) simp_all

text \<open>
  C5. On a context without a span \<^verbatim>\<open>NewChildSpan\<close> returns the nil span and the
  empty function and leaves the state as it is; called any number of times in
  any state, that function returns and leaves the state, and with it the list of
  collector calls, as it is.
\<close>

theorem NewChildSpan_no_parent:
  "NewChildSpan E None collector mName options w = Some ((None, collect_nothing), w) \<and>
   call_times n E collect_nothing w' = Some w'"
  by (simp add: NewChildSpan_def FromContext_def call_times_nothing)

theorem NewChildSpan_no_parent_witness:
  "NewChildSpan example_env None 4 ''query'' [Debug True] example_world =
     Some ((None, collect_nothing), example_world) \<and>
   call_times 3 example_env collect_nothing example_world = Some example_world"
  by (rule NewChildSpan_no_parent)

lemma length_encode_annotations: "length (encode_annotations as) = length as"
  by (induction as) simp_all

lemma length_encode_binaryAnnotations: "length (encode_binaryAnnotations as) = length as"
  by (induction as) simp_all

lemma nth_encode_annotations:
  "i < length as \<Longrightarrow> encode_annotations as ! i =
     \<lparr>A_Timestamp = micros (timestamp (as ! i)), A_Value = value (as ! i),
      A_Host = a_host (as ! i)\<rparr>"
  by (induction as arbitrary: i) (auto simp: nth_Cons split: nat.splits)

lemma nth_encode_binaryAnnotations:
  "i < length as \<Longrightarrow> encode_binaryAnnotations as ! i =
     \<lparr>B_Key = key (as ! i), B_Value = b_value (as ! i),
      B_AnnotationType = annotationType (as ! i), B_Host = b_host (as ! i)\<rparr>"
  by (induction as arbitrary: i) (auto simp: nth_Cons split: nat.splits)

text \<open>
  C6. \<^verbatim>\<open>Encode\<close> on a span returns the state unchanged, and a Thrift span with
  the span's ids, name and debug flag, whose ParentId is nil exactly when
  parentSpanID is 0 and is parentSpanID otherwise, and whose two slices are not
  nil, have the lengths of the span's lists (so length 0 for an empty list) and
  hold at each index the translation of the span's entry at that index.
\<close>

theorem Encode_wire:
  assumes "deref w s = Some sp"
  shows "\<exists>zs as bs. Encode s w = Some (zs, w) \<and>
    TraceId zs = traceID sp \<and> Name zs = methodName sp \<and> Id zs = spanID sp \<and>
    Debug_flag zs = debug sp \<and>
    (ParentId zs = None \<longleftrightarrow> parentSpanID sp = 0) \<and>
    (\<forall>pid. ParentId zs = Some pid \<longrightarrow> pid = parentSpanID sp) \<and>
    Annotations zs = Some as \<and> length as = length (annotations sp) \<and>
    (\<forall>i < length as. as ! i =
       \<lparr>A_Timestamp = micros (timestamp (annotations sp ! i)),
        A_Value = value (annotations sp ! i), A_Host = a_host (annotations sp ! i)\<rparr>) \<and>
    BinaryAnnotations zs = Some bs \<and> length bs = length (binaryAnnotations sp) \<and>
    (\<forall>i < length bs. bs ! i =
       \<lparr>B_Key = key (binaryAnnotations sp ! i), B_Value = b_value (binaryAnnotations sp ! i),
        B_AnnotationType = annotationType (binaryAnnotations sp ! i),
        B_Host = b_host (binaryAnnotations sp ! i)\<rparr>)"
  using assms
  by (simp add: Encode_def Let_def length_encode_annotations length_encode_binaryAnnotations
      nth_encode_annotations nth_encode_binaryAnnotations)

theorem Encode_wire_witness:
  "\<exists>zs as bs. Encode 0 example_world = Some (zs, example_world) \<and>
    TraceId zs = traceID example_parent \<and> Name zs = methodName example_parent \<and>
    Id zs = spanID example_parent \<and> Debug_flag zs = debug example_parent \<and>
    ParentId zs = None \<and> parentSpanID example_parent = 0 \<and>
    Annotations zs = Some as \<and> length as = 1 \<and>
    as ! 0 = \<lparr>A_Timestamp = 1000, A_Value = ''sr'', A_Host = Some 0\<rparr> \<and>
    BinaryAnnotations zs = Some bs \<and> length bs = 1 \<and>
    bs ! 0 = \<lparr>B_Key = ''path'', B_Value = [47], B_AnnotationType = AnnotationType_STRING,
              B_Host = Some 0\<rparr>"
proof -
  have m: "micros 1000000 = 1000" by code_simp
  show ?thesis
    using Encode_wire [OF deref_example]
    by (auto simp: example_parent_def m)
qed

text \<open>
  C4. In the scenario of the example the encoded span has no ParentId, one
  annotation \<^verbatim>\<open>cs\<close> and one binary annotation of key \<^verbatim>\<open>http.status\<close> and type
  I32, whose value is the eight bytes 00 00 00 C8 00 00 00 00, not four.
\<close>

theorem http_status_scenario_bytes:
  "http_status_scenario E hostport serviceName mName w =
     Some \<lparr>TraceId = 1, Name = mName, Id = 2, ParentId = None,
           Annotations = Some
             [\<lparr>A_Timestamp = micros (Now E (clock w)), A_Value = ''cs'',
               A_Host = fst (makeEndpoint E hostport serviceName w)\<rparr>],
           BinaryAnnotations = Some
             [\<lparr>B_Key = ''http.status'', B_Value = [0, 0, 0, 200, 0, 0, 0, 0],
               B_AnnotationType = AnnotationType_I32,
               B_Host = fst (makeEndpoint E hostport serviceName w)\<rparr>],
           Debug_flag = False\<rparr>"
proof -
  obtain e w0 where m: "makeEndpoint E hostport serviceName w = (e, w0)"
    by (cases "makeEndpoint E hostport serviceName w")
  with makeEndpoint_cases [of E hostport serviceName w] have ck: "clock w0 = clock w"
    by auto
  have bytes: "PutUint32 (make_bytes 8) (ucast (200 :: 64 word)) = [0, 0, 0, 200, 0, 0, 0, 0]"
    by code_simp
  then have enc: "encode_value E (V_int 200) =
      (AnnotationType_I32, [0, 0, 0, 200, 0, 0, 0, 0])"
    by simp
  show ?thesis
    unfolding http_status_scenario_def NewSpan_def
    by (simp add: m ck enc Annotate_def AnnotateBinary_def Encode_def deref_def store_def
        Let_def del: encode_value.simps)
qed

end
